theory Spec2Isabelle
  imports Main "HOL-Library.AList" "HOL-Library.Multiset"
begin

section \<open>Data model\<close>

text \<open>
  The aggregator of the node problem detector (\<^verbatim>\<open>aggregator/aggregator.go\<close>) polls the
  detector of every Nomad node once per cycle, compares the health checks it receives with
  the ones of the previous cycle and toggles the node's scheduling eligibility.

  \<^verbatim>\<open>types.HealthCheck\<close> is a struct of three strings.
\<close>

record HealthCheck =
  Type :: string
  Result :: string
  Message :: string

text \<open>The two fields of a listed Nomad node that \<^verbatim>\<open>aggregate\<close> reads.\<close>

record Node =
  ID :: string
  Address :: string

text \<open>
  Go errors are values; their text is only logged. A nil pointer dereference is the one
  runtime panic the aggregator's code can raise; nothing in the program recovers from it.
\<close>

type_synonym error = string

datatype panic = NilPointerDereference

text \<open>
  \<^verbatim>\<open>m := make(map[string][]types.HealthCheck)\<close>: the health checks last stored for each
  node ID. A nil slice and an empty slice are both the empty list: the code only ranges over
  the stored slice.
\<close>

type_synonym history = "string \<rightharpoonup> HealthCheck list"

text \<open>
  The calls the aggregator makes to the outside, in the order it makes them: listing the
  nodes, an HTTP POST to a detector URL, toggling a node's eligibility, and sleeping
  between cycles. Log output has no influence on control flow and is left out.
\<close>

datatype event =
    NodesList
  | HttpPost string
  | ToggleEligibility string bool
  | Sleep

text \<open>
  \<^verbatim>\<open>*http.Response\<close> as far as the code looks at it; a nil pointer is \<open>None\<close> of
  \<open>response option\<close>.
\<close>

datatype response = Response (StatusCode: int)

text \<open>
  What the outside world answers while one node is visited, one field per call of the
  source, in source order.
\<close>

record node_io =
  health_NewRequest :: "error option"
    \<comment> \<open>\<^verbatim>\<open>isNpdServerActive\<close>: err of \<^verbatim>\<open>http.NewRequest\<close>\<close>
  health_Do :: "response option \<times> error option"
    \<comment> \<open>\<^verbatim>\<open>isNpdServerActive\<close>: \<^verbatim>\<open>resp, err := client.Do(req)\<close>\<close>
  nodehealth_NewRequest :: "error option"
    \<comment> \<open>\<^verbatim>\<open>aggregate\<close>: err of \<^verbatim>\<open>http.NewRequest\<close> for /v1/nodehealth/\<close>
  nodehealth_Do :: "response option \<times> error option"
    \<comment> \<open>\<^verbatim>\<open>aggregate\<close>: \<^verbatim>\<open>resp, err := client.Do(req)\<close>\<close>
  ReadAll :: "error option"
    \<comment> \<open>err of \<^verbatim>\<open>ioutil.ReadAll(resp.Body)\<close>\<close>
  Unmarshal :: "error + HealthCheck list"
    \<comment> \<open>\<^verbatim>\<open>json.Unmarshal(body, &current)\<close>: err, or the decoded \<^verbatim>\<open>current\<close>\<close>
  ToggleEligibility_err :: "error option"
    \<comment> \<open>err of \<^verbatim>\<open>nodeHandle.ToggleEligibility\<close>\<close>

section \<open>The state-diff engine\<close>

text \<open>
  \<^verbatim>\<open>previous := make(map[string]types.HealthCheck)\<close> is kept as an association list with
  one pair per key, so that \<^verbatim>\<open>len(previous)\<close> is its length. The loop
  \<^verbatim>\<open>for _, nh := range nodeHealth { previous[nh.Type] = nh }\<close> stores each entry under its
  Type; a later entry of the same Type replaces the earlier one.
\<close>

type_synonym previous_map = "(string \<times> HealthCheck) list"

fun build_previous :: "HealthCheck list \<Rightarrow> previous_map \<Rightarrow> previous_map" where
  "build_previous [] previous = previous"
| "build_previous (nh # rest) previous =
     build_previous rest (AList.update (Type nh) nh previous)"

text \<open>
  The loop over \<^verbatim>\<open>current\<close> (lines 178 to 198) with its two variables
  \<^verbatim>\<open>nodeHealthy\<close> and \<^verbatim>\<open>stateChanged\<close>. The test of
  \<^verbatim>\<open>curr.Result\<close> (here \<open>Result cur\<close>) comes before the look-up, so the \<^verbatim>\<open>continue\<close> of an unchanged entry does not skip it.
\<close>

fun diff_loop :: "previous_map \<Rightarrow> HealthCheck list \<Rightarrow> bool \<times> bool \<Rightarrow> bool \<times> bool" where
  "diff_loop previous [] (nodeHealthy, stateChanged) = (nodeHealthy, stateChanged)"
| "diff_loop previous (cur # rest) (nodeHealthy, stateChanged) =
     (let nodeHealthy' =
            (if Result cur = ''Unhealthy'' \<or> Result cur = ''true'' then False
             else nodeHealthy)
      in case map_of previous (Type cur) of
           Some prev \<Rightarrow>
             if Result prev = Result cur
             then diff_loop previous rest (nodeHealthy', stateChanged)
             else diff_loop previous rest (nodeHealthy', True)
         | None \<Rightarrow> diff_loop previous rest (nodeHealthy', stateChanged))"

text \<open>
  Lines 165 to 198 together: from the stored sequence and the fetched one to
  \<open>(nodeHealthy, stateChanged)\<close>.
\<close>

definition state_diff :: "HealthCheck list \<Rightarrow> HealthCheck list \<Rightarrow> bool \<times> bool" where
  "state_diff nodeHealth current =
     diff_loop (build_previous nodeHealth []) current (True, False)"

section \<open>Visiting a node\<close>

text \<open>
  \<^verbatim>\<open>toggleNodeEligibility\<close> makes the call; an error of the call is logged and dropped.
\<close>

definition toggleNodeEligibility :: "node_io \<Rightarrow> string \<Rightarrow> bool \<Rightarrow> event list" where
  "toggleNodeEligibility io nodeID eligible =
     (case ToggleEligibility_err io of
        Some err \<Rightarrow> [ToggleEligibility nodeID eligible]
      | None \<Rightarrow> [ToggleEligibility nodeID eligible])"

text \<open>
  \<^verbatim>\<open>isNpdServerActive\<close>: the events of the probe and the pair \<^verbatim>\<open>(bool, error)\<close> it returns,
  an error as \<open>Inl\<close>. The function returns on an error of \<^verbatim>\<open>client.Do\<close> before it touches
  \<^verbatim>\<open>resp\<close>; reading \<^verbatim>\<open>resp.StatusCode\<close> of a nil response would panic.
\<close>

definition isNpdServerActive ::
  "node_io \<Rightarrow> string \<Rightarrow> panic + (event list \<times> (error + bool))" where
  "isNpdServerActive io npdServer =
     (let url = npdServer @ ''/v1/health/'' in
      case health_NewRequest io of
        Some err \<Rightarrow> Inr ([], Inl err)
      | None \<Rightarrow>
          (case health_Do io of
             (_, Some err) \<Rightarrow> Inr ([HttpPost url], Inl err)
           | (None, None) \<Rightarrow> Inl NilPointerDereference
           | (Some resp, None) \<Rightarrow>
               if StatusCode resp \<noteq> 200 then Inr ([HttpPost url], Inr False)
               else Inr ([HttpPost url], Inr True)))"

text \<open>The stored sequence of a node: \<^verbatim>\<open>nodeHealth\<close> stays nil when the map has none.\<close>

definition stored_history :: "history \<Rightarrow> string \<Rightarrow> HealthCheck list" where
  "stored_history m nodeID = (case m nodeID of None \<Rightarrow> [] | Some nodeHealth \<Rightarrow> nodeHealth)"

text \<open>
  The body of \<^verbatim>\<open>for _, node := range nodes\<close> (lines 109 to 207). Every \<^verbatim>\<open>continue\<close>
  returns the events so far and the map as it is. On an error of \<^verbatim>\<open>client.Do\<close> the code
  calls \<^verbatim>\<open>resp.Body.Close()\<close> (line 144), which dereferences \<^verbatim>\<open>resp\<close>: with the nil
  response of a failed connection this is a panic, with a response it is the skip that the
  \<^verbatim>\<open>continue\<close> intends. Without an error, \<^verbatim>\<open>ioutil.ReadAll(resp.Body)\<close> (line 148)
  dereferences \<^verbatim>\<open>resp\<close> likewise. The two branches of line 201 make the same call with
  \<^verbatim>\<open>true\<close> and \<^verbatim>\<open>false\<close>.
\<close>

definition process_node ::
  "string \<Rightarrow> node_io \<Rightarrow> Node \<Rightarrow> history \<Rightarrow> panic + (event list \<times> history)" where
  "process_node detectorPort io node m =
     (let npdServer = ''http://'' @ Address node @ detectorPort in
      case isNpdServerActive io npdServer of
        Inl p \<Rightarrow> Inl p
      | Inr (probe, Inl err) \<Rightarrow> Inr (probe, m)
      | Inr (probe, Inr npdActive) \<Rightarrow>
          if \<not> npdActive
          then Inr (probe @ toggleNodeEligibility io (ID node) False, m)
          else
            (let url = npdServer @ ''/v1/nodehealth/'' in
             case nodehealth_NewRequest io of
               Some err \<Rightarrow> Inr (probe, m)
             | None \<Rightarrow>
                 (case nodehealth_Do io of
                    (None, Some err) \<Rightarrow> Inl NilPointerDereference
                  | (Some resp, Some err) \<Rightarrow> Inr (probe @ [HttpPost url], m)
                  | (None, None) \<Rightarrow> Inl NilPointerDereference
                  | (Some resp, None) \<Rightarrow>
                      (case ReadAll io of
                         Some err \<Rightarrow> Inr (probe @ [HttpPost url], m)
                       | None \<Rightarrow>
                           (case Unmarshal io of
                              Inl err \<Rightarrow> Inr (probe @ [HttpPost url], m)
                            | Inr current \<Rightarrow>
                                (let nodeHealth = stored_history m (ID node);
                                     previous = build_previous nodeHealth [];
                                     (nodeHealthy, stateChanged) =
                                        diff_loop previous current (True, False);
                                     toggle =
                                       (if length previous = 0 \<or> stateChanged
                                        then (if nodeHealthy
                                              then toggleNodeEligibility io (ID node) True
                                              else toggleNodeEligibility io (ID node) False)
                                        else [])
                                 in Inr (probe @ [HttpPost url] @ toggle,
                                         m(ID node \<mapsto> current))))))))"

section \<open>The cycle and the scheduler loop\<close>

text \<open>
  The nodes of one listing are visited in order; each visit has its own answers of the
  outside world. A panic ends the process, so the remaining nodes are not visited.
\<close>

fun process_nodes ::
  "string \<Rightarrow> (Node \<times> node_io) list \<Rightarrow> history \<Rightarrow> panic + (event list \<times> history)" where
  "process_nodes detectorPort [] m = Inr ([], m)"
| "process_nodes detectorPort ((node, io) # rest) m =
     (case process_node detectorPort io node m of
        Inl p \<Rightarrow> Inl p
      | Inr (evs, m') \<Rightarrow>
          (case process_nodes detectorPort rest m' of
             Inl p \<Rightarrow> Inl p
           | Inr (evs', m'') \<Rightarrow> Inr (evs @ evs', m'')))"

text \<open>
  One iteration of the endless \<^verbatim>\<open>for\<close> of \<^verbatim>\<open>aggregate\<close> (lines 93 to 210), given the value
  of \<^verbatim>\<open>pause\<close> it reads and the answer of \<^verbatim>\<open>nodeHandle.List\<close>.
\<close>

definition iteration ::
  "string \<Rightarrow> error + (Node \<times> node_io) list \<Rightarrow> bool \<Rightarrow> history
     \<Rightarrow> panic + (event list \<times> history)" where
  "iteration detectorPort listing pause m =
     (if pause then Inr ([], m)
      else case listing of
             Inl err \<Rightarrow> Inr ([NodesList, Sleep], m)
           | Inr nodes \<Rightarrow>
               (case process_nodes detectorPort nodes m of
                  Inl p \<Rightarrow> Inl p
                | Inr (evs, m') \<Rightarrow> Inr (NodesList # evs @ [Sleep], m')))"

text \<open>\<^verbatim>\<open>flipPause\<close>: each signal received on the channel negates \<^verbatim>\<open>pause\<close>.\<close>

definition flipPause :: "bool \<Rightarrow> bool" where
  "flipPause pause = (\<not> pause)"

text \<open>
  \<^verbatim>\<open>go flipPause(sigs)\<close> (line 85) runs beside the loop of \<^verbatim>\<open>aggregate\<close>, which reads
  \<^verbatim>\<open>pause\<close> once per iteration, on line 94. A signal can therefore be received while a
  cycle is under way. \<open>timed\<close> places the signals received during one iteration among the
  calls of that iteration: each number of \<open>during\<close> says how many further calls the loop
  makes before the next signal is received (signals left over when the calls are used up
  are received after the last call). Every call is paired with the value \<^verbatim>\<open>pause\<close> has
  when it is made; the flag after the iteration is returned with the calls.
\<close>

fun timed :: "bool \<Rightarrow> nat list \<Rightarrow> event list \<Rightarrow> (bool \<times> event) list \<times> bool" where
  "timed pause [] evs = (map (Pair pause) evs, pause)"
| "timed pause (k # during) evs =
     (case timed (flipPause pause) during (drop k evs) of
        (later, pause') \<Rightarrow> (map (Pair pause) (take k evs) @ later, pause'))"

text \<open>
  The process as a sequence of steps: a signal received by \<^verbatim>\<open>flipPause\<close> while the loop is
  between two iterations, or one iteration of the loop of \<^verbatim>\<open>aggregate\<close> with the answer of
  \<^verbatim>\<open>nodeHandle.List\<close> and the signals received while it runs. The iteration works with the
  value of \<^verbatim>\<open>pause\<close> it read at its start, whatever is received later. The loop never ends
  by itself; a run over a finite schedule is a prefix of its behaviour, and a panic ends
  it.
\<close>

datatype step = SIGUSR1 | Iterate "error + (Node \<times> node_io) list" "nat list"

fun run ::
  "string \<Rightarrow> step list \<Rightarrow> bool \<times> history
     \<Rightarrow> panic + ((bool \<times> event) list \<times> bool \<times> history)" where
  "run detectorPort [] (pause, m) = Inr ([], pause, m)"
| "run detectorPort (SIGUSR1 # rest) (pause, m) = run detectorPort rest (flipPause pause, m)"
| "run detectorPort (Iterate listing during # rest) (pause, m) =
     (case iteration detectorPort listing pause m of
        Inl p \<Rightarrow> Inl p
      | Inr (evs, m') \<Rightarrow>
          (case timed pause during evs of
             (calls, pause') \<Rightarrow>
               (case run detectorPort rest (pause', m') of
                  Inl p \<Rightarrow> Inl p
                | Inr (calls', s) \<Rightarrow> Inr (calls @ calls', s))))"


text \<open>The eligibility calls among the events, as pairs of node ID and requested value.\<close>

fun toggles :: "event list \<Rightarrow> (string \<times> bool) list" where
  "toggles [] = []"
| "toggles (ToggleEligibility nodeID eligible # evs) = (nodeID, eligible) # toggles evs"
| "toggles (_ # evs) = toggles evs"


section \<open>Notions of the specification\<close>

text \<open>
  The liveness probe answered 200, and the health snapshot was requested, received, read
  and decoded as \<open>current\<close>.
\<close>

definition snapshot_fetched :: "node_io \<Rightarrow> HealthCheck list \<Rightarrow> bool" where
  "snapshot_fetched io current \<longleftrightarrow>
     health_NewRequest io = None
     \<and> (case health_Do io of (Some resp, None) \<Rightarrow> StatusCode resp = 200 | _ \<Rightarrow> False)
     \<and> nodehealth_NewRequest io = None
     \<and> (case nodehealth_Do io of (Some resp, None) \<Rightarrow> True | _ \<Rightarrow> False)
     \<and> ReadAll io = None
     \<and> Unmarshal io = Inr current"

text \<open>The liveness probe failed: its request could not be built or could not be sent.\<close>

definition probe_failed :: "node_io \<Rightarrow> bool" where
  "probe_failed io \<longleftrightarrow>
     (case health_NewRequest io of
        Some err \<Rightarrow> True
      | None \<Rightarrow> (case health_Do io of (_, Some err) \<Rightarrow> True | (_, None) \<Rightarrow> False))"

text \<open>The liveness probe was answered, with a status other than 200.\<close>

definition probe_not_200 :: "node_io \<Rightarrow> bool" where
  "probe_not_200 io \<longleftrightarrow>
     health_NewRequest io = None
     \<and> (case health_Do io of (Some resp, None) \<Rightarrow> StatusCode resp \<noteq> 200 | _ \<Rightarrow> False)"

text \<open>
  The specification's reading of \<open>stateChanged\<close>: some entry of the current sequence has a
  Type that some entry of the previous sequence has too, with another Result.
\<close>

definition claimed_stateChanged :: "HealthCheck list \<Rightarrow> HealthCheck list \<Rightarrow> bool" where
  "claimed_stateChanged previous current =
     list_ex (\<lambda>c. list_ex (\<lambda>p. Type p = Type c \<and> Result p \<noteq> Result c) previous) current"

subsection \<open>Concrete inputs\<close>

text \<open>
  A node whose probe answers 200, with the given answer to the snapshot request and the
  given result of decoding; a health check without a message; a listed node.
\<close>

definition answers ::
  "response option \<times> error option \<Rightarrow> error + HealthCheck list \<Rightarrow> node_io" where
  "answers fetched decoded =
     \<lparr> health_NewRequest = None,
       health_Do = (Some (Response 200), None),
       nodehealth_NewRequest = None,
       nodehealth_Do = fetched,
       ReadAll = None,
       Unmarshal = decoded,
       ToggleEligibility_err = None \<rparr>"

definition check :: "string \<Rightarrow> string \<Rightarrow> HealthCheck" where
  "check t r = \<lparr> Type = t, Result = r, Message = [] \<rparr>"

definition node1 :: Node where
  "node1 = \<lparr> ID = ''n1'', Address = ''10.0.0.1'' \<rparr>"

text \<open>
  A node that refuses the connection, so that \<^verbatim>\<open>client.Do\<close> returns a nil response and an
  error; and a node whose detector answers the probe with status 503.
\<close>

definition unreachable :: node_io where
  "unreachable =
     \<lparr> health_NewRequest = None,
       health_Do = (None, Some ''dial tcp: connection refused''),
       nodehealth_NewRequest = None,
       nodehealth_Do = (None, Some ''dial tcp: connection refused''),
       ReadAll = None,
       Unmarshal = Inr [],
       ToggleEligibility_err = None \<rparr>"

definition status_503 :: node_io where
  "status_503 =
     \<lparr> health_NewRequest = None,
       health_Do = (Some (Response 503), None),
       nodehealth_NewRequest = None,
       nodehealth_Do = (Some (Response 503), None),
       ReadAll = None,
       Unmarshal = Inr [],
       ToggleEligibility_err = None \<rparr>"

section \<open>Properties of the state-diff engine\<close>

lemma find_app:
  "find P (xs @ ys) = (case find P xs of Some x \<Rightarrow> Some x | None \<Rightarrow> find P ys)"
  by (induction xs) auto

lemma map_of_build_previous:
  "map_of (build_previous hs acc) t =
     (case find (\<lambda>h. Type h = t) (rev hs) of Some h \<Rightarrow> Some h | None \<Rightarrow> map_of acc t)"
proof (induction hs arbitrary: acc)
  case Nil
  show ?case by simp
next
  case (Cons nh rest)
  show ?case
    by (simp add: Cons.IH update_conv' find_app split: option.splits)
qed

lemma build_previous_Nil_iff: "build_previous hs acc = [] \<longleftrightarrow> hs = [] \<and> acc = []"
proof (induction hs arbitrary: acc)
  case Nil
  show ?case by simp
next
  case (Cons nh rest)
  have "AList.update (Type nh) nh acc \<noteq> []" by (cases acc) auto
  then show ?case by (simp add: Cons.IH)
qed

lemma diff_loop_closed:
  "diff_loop previous cs (h, s) =
     (h \<and> (\<forall>c\<in>set cs. \<not> (Result c = ''Unhealthy'' \<or> Result c = ''true'')),
      s \<or> (\<exists>c\<in>set cs. \<exists>p. map_of previous (Type c) = Some p \<and> Result p \<noteq> Result c))"
proof (induction cs arbitrary: h s)
  case Nil
  show ?case by simp
next
  case (Cons c cs)
  show ?case
    by (auto simp: Cons.IH Let_def split: option.splits)
qed

lemma map_of_previous:
  "map_of (build_previous hs []) t = find (\<lambda>h. Type h = t) (rev hs)"
  by (simp add: map_of_build_previous split: option.splits)

lemma state_diff_closed:
  "state_diff ps cs =
     ((\<forall>c\<in>set cs. \<not> (Result c = ''Unhealthy'' \<or> Result c = ''true'')),
      (\<exists>c\<in>set cs. \<exists>p. find (\<lambda>h. Type h = Type c) (rev ps) = Some p \<and> Result p \<noteq> Result c))"
  by (simp add: state_diff_def diff_loop_closed map_of_previous)

lemma find_None_unseen:
  "t \<notin> Type ` set ps \<Longrightarrow> find (\<lambda>h. Type h = t) (rev ps) = None"
  by (auto simp: find_None_iff)

lemma find_distinct_Type:
  "distinct (map Type ps) \<Longrightarrow>
     find (\<lambda>h. Type h = t) (rev ps) = Some p \<longleftrightarrow> p \<in> set ps \<and> Type p = t"
proof (induction ps)
  case Nil
  show ?case by simp
next
  case (Cons a ps)
  from Cons.prems have fresh: "Type a \<notin> Type ` set ps" and d: "distinct (map Type ps)"
    by simp_all
  show ?case
  proof (cases "Type a = t")
    case True
    with fresh have "find (\<lambda>h. Type h = t) (rev ps) = None"
      by (simp add: find_None_unseen)
    moreover from fresh have "\<forall>q\<in>set ps. Type q \<noteq> Type a"
      by (metis image_eqI)
    ultimately show ?thesis
      using True by (auto simp: find_app)
  next
    case False
    then have "find (\<lambda>h. Type h = t) (rev (a # ps)) = find (\<lambda>h. Type h = t) (rev ps)"
      by (simp add: find_app split: option.splits)
    with False Cons.IH [OF d] show ?thesis
      by auto
  qed
qed

lemma find_Some_holds: "find P xs = Some x \<Longrightarrow> P x \<and> x \<in> set xs"
  by (induction xs) (auto split: if_splits)

lemma find_filter_Type:
  "t' \<noteq> t \<Longrightarrow>
     find (\<lambda>h. Type h = t') (filter (\<lambda>p. Type p \<noteq> t) xs) = find (\<lambda>h. Type h = t') xs"
  by (induction xs) auto

section \<open>Properties of a visit and of the loop\<close>

lemma process_node_fetched:
  assumes "snapshot_fetched io current"
  shows "process_node port io node m =
     Inr ([HttpPost (''http://'' @ Address node @ port @ ''/v1/health/''),
           HttpPost (''http://'' @ Address node @ port @ ''/v1/nodehealth/'')]
          @ (if stored_history m (ID node) = []
                \<or> snd (state_diff (stored_history m (ID node)) current)
             then [ToggleEligibility (ID node)
                     (fst (state_diff (stored_history m (ID node)) current))]
             else []),
          m(ID node \<mapsto> current))"
  using assms
  by (auto simp: snapshot_fetched_def process_node_def isNpdServerActive_def Let_def
        state_diff_def toggleNodeEligibility_def build_previous_Nil_iff
        split: option.splits prod.splits sum.splits)

text \<open>
  When the snapshot request is answered but the answer carries an error, cannot be read or
  cannot be decoded, the node is skipped: no eligibility call, the map as it was.
\<close>

lemma read_or_decode_failure_skips:
  assumes "health_NewRequest io = None" "health_Do io = (Some resp, None)" "StatusCode resp = 200"
    and "nodehealth_NewRequest io = None" "nodehealth_Do io = (Some resp', e)"
    and "e \<noteq> None \<or> ReadAll io \<noteq> None \<or> (\<exists>err. Unmarshal io = Inl err)"
  shows "process_node port io node m
     = Inr ([HttpPost (''http://'' @ Address node @ port @ ''/v1/health/''),
             HttpPost (''http://'' @ Address node @ port @ ''/v1/nodehealth/'')], m)"
  using assms
  by (auto simp: process_node_def isNpdServerActive_def Let_def split: option.splits sum.splits)






section \<open>Claims\<close>

text \<open>
  Claim C1. When the liveness probe answers 200 and the snapshot is fetched and decoded,
  the visit of the node issues an eligibility call exactly when the stored history of the
  node is empty or the diff reports \<open>stateChanged\<close>; the call asks for eligible exactly
  when the verdict is healthy; and in every case the stored history becomes the current
  sequence.
\<close>

theorem toggle_iff_first_or_changed:
  assumes "snapshot_fetched io current"
  shows "\<exists>evs. process_node port io node m = Inr (evs, m(ID node \<mapsto> current))
           \<and> toggles evs =
               (if stored_history m (ID node) = []
                   \<or> snd (state_diff (stored_history m (ID node)) current)
                then [(ID node, fst (state_diff (stored_history m (ID node)) current))]
                else [])"
  by (simp add: process_node_fetched [OF assms])


text \<open>At a first observation of one healthy check: one call, asking for eligible.\<close>

theorem toggle_iff_first_or_changed_witness:
  "snapshot_fetched (answers (Some (Response 200), None) (Inr [check ''CPUUnderPressure'' ''false''])) [check ''CPUUnderPressure'' ''false'']
   \<and> (\<exists>evs. process_node '':8083'' (answers (Some (Response 200), None) (Inr [check ''CPUUnderPressure'' ''false''])) node1 Map.empty
               = Inr (evs, [ID node1 \<mapsto> [check ''CPUUnderPressure'' ''false'']])
             \<and> toggles evs = [(''n1'', True)])"
  using toggle_iff_first_or_changed
    [of "answers (Some (Response 200), None) (Inr [check ''CPUUnderPressure'' ''false''])"
        "[check ''CPUUnderPressure'' ''false'']" "'':8083''" node1 Map.empty]
  by (simp add: snapshot_fetched_def answers_def check_def node1_def stored_history_def
        state_diff_def)

text \<open>
  Claim C2. The verdict is unhealthy exactly when some entry of the current sequence has
  the Result \<^verbatim>\<open>Unhealthy\<close> or \<^verbatim>\<open>true\<close>; one such entry is enough wherever it stands and
  whatever the other entries are.
\<close>

theorem verdict_unhealthy_iff_bad_entry:
  "(\<not> fst (state_diff previous current)
      \<longleftrightarrow> (\<exists>c\<in>set current. Result c = ''Unhealthy'' \<or> Result c = ''true''))
   \<and> (Result c = ''Unhealthy'' \<or> Result c = ''true''
        \<longrightarrow> \<not> fst (state_diff previous (before @ c # after)))"
  by (auto simp: state_diff_closed)

text \<open>
  One entry \<^verbatim>\<open>true\<close> among healthy ones; \<^verbatim>\<open>unhealthy\<close> in lower case is not a bad value.
\<close>

theorem verdict_unhealthy_iff_bad_entry_witness:
  "\<not> fst (state_diff [] [check ''a'' ''Healthy'', check ''b'' ''true'', check ''c'' ''false''])
   \<and> fst (state_diff [] [check ''a'' ''Healthy'', check ''c'' ''false'', check ''d'' ''unhealthy''])
   \<and> (Result (check ''b'' ''Unhealthy'') = ''Unhealthy''
        \<and> \<not> fst (state_diff [] ([check ''a'' ''Healthy''] @ check ''b'' ''Unhealthy'' # [check ''c'' ''false''])))"
  using verdict_unhealthy_iff_bad_entry
    [of "[]" "[check ''a'' ''Healthy'', check ''b'' ''true'', check ''c'' ''false'']"
        "check ''b'' ''Unhealthy''" "[check ''a'' ''Healthy'']" "[check ''c'' ''false'']"]
    verdict_unhealthy_iff_bad_entry
    [of "[]" "[check ''a'' ''Healthy'', check ''c'' ''false'', check ''d'' ''unhealthy'']"]
  by (simp add: check_def)

text \<open>
  Claim C3, amended. \<open>stateChanged\<close> is true exactly when some entry of the current
  sequence has a Type whose last entry in the previous sequence has another Result (a later
  previous entry of a Type replaces the earlier ones in the look-up). When no two previous
  entries share a Type, this is the specification's reading: some current entry has a Type
  present in the previous sequence with another Result. An entry whose Type the previous
  sequence does not have never sets \<open>stateChanged\<close>.
\<close>

theorem stateChanged_iff_last_previous_differs:
  "(snd (state_diff previous current)
      \<longleftrightarrow> (\<exists>c\<in>set current. \<exists>p. find (\<lambda>h. Type h = Type c) (rev previous) = Some p
                                  \<and> Result p \<noteq> Result c))
   \<and> (distinct (map Type previous)
        \<longrightarrow> snd (state_diff previous current) = claimed_stateChanged previous current)
   \<and> (Type c \<notin> Type ` set previous
        \<longrightarrow> snd (state_diff previous (before @ c # after))
             = snd (state_diff previous (before @ after)))"
proof (intro conjI impI)
  show "snd (state_diff previous current)
      \<longleftrightarrow> (\<exists>c\<in>set current. \<exists>p. find (\<lambda>h. Type h = Type c) (rev previous) = Some p
                                  \<and> Result p \<noteq> Result c)"
    by (simp add: state_diff_closed)
next
  assume "distinct (map Type previous)"
  then show "snd (state_diff previous current) = claimed_stateChanged previous current"
    by (auto simp: state_diff_closed claimed_stateChanged_def list_ex_iff find_distinct_Type)
next
  assume "Type c \<notin> Type ` set previous"
  then have "find (\<lambda>h. Type h = Type c) (rev previous) = None"
    by (rule find_None_unseen)
  then show "snd (state_diff previous (before @ c # after))
             = snd (state_diff previous (before @ after))"
    by (auto simp: state_diff_closed)
qed

text \<open>
  A changed memory check among previous entries of distinct Types, and a disk check that
  is new.
\<close>

theorem stateChanged_iff_last_previous_differs_witness:
  "snd (state_diff [check ''mem'' ''false'', check ''cpu'' ''false''] [check ''mem'' ''true''])
   \<and> distinct (map Type [check ''mem'' ''false'', check ''cpu'' ''false''])
   \<and> claimed_stateChanged [check ''mem'' ''false'', check ''cpu'' ''false''] [check ''mem'' ''true'']
   \<and> Type (check ''disk'' ''true'') \<notin> Type ` set [check ''mem'' ''false'', check ''cpu'' ''false'']
   \<and> \<not> snd (state_diff [check ''mem'' ''false'', check ''cpu'' ''false'']
              ([check ''mem'' ''false''] @ check ''disk'' ''true'' # []))"
proof -
  have d: "distinct (map Type [check ''mem'' ''false'', check ''cpu'' ''false''])"
    by (simp add: check_def)
  have u: "Type (check ''disk'' ''true'')
             \<notin> Type ` set [check ''mem'' ''false'', check ''cpu'' ''false'']"
    by (simp add: check_def)
  have c: "claimed_stateChanged [check ''mem'' ''false'', check ''cpu'' ''false'']
             [check ''mem'' ''true'']"
    by (simp add: claimed_stateChanged_def check_def)
  have n: "\<not> claimed_stateChanged [check ''mem'' ''false'', check ''cpu'' ''false'']
             ([check ''mem'' ''false''] @ [])"
    by (simp add: claimed_stateChanged_def check_def)
  from stateChanged_iff_last_previous_differs
         [of "[check ''mem'' ''false'', check ''cpu'' ''false'']" "[check ''mem'' ''true'']"]
       stateChanged_iff_last_previous_differs
         [of "[check ''mem'' ''false'', check ''cpu'' ''false'']" "[check ''mem'' ''false''] @ []"
             "check ''disk'' ''true''" "[check ''mem'' ''false'']" "[]"]
       d u c n
  show ?thesis by blast
qed

text \<open>
  Claim C3 as stated fails when the previous sequence has two entries of one Type: the
  first \<^verbatim>\<open>docker\<close> entry differs from the current one, yet the look-up holds the second
  one, which is equal, and \<open>stateChanged\<close> stays false.
\<close>

theorem stateChanged_duplicate_type_counterexample:
  "claimed_stateChanged [check ''docker'' ''Unhealthy'', check ''docker'' ''Healthy'']
       [check ''docker'' ''Healthy'']
   \<and> \<not> snd (state_diff [check ''docker'' ''Unhealthy'', check ''docker'' ''Healthy'']
              [check ''docker'' ''Healthy''])"
  by (simp add: claimed_stateChanged_def state_diff_def check_def)

text \<open>
  Claim C4, amended. When the liveness probe is answered with a status other than 200, the
  visit issues one call asking for ineligible, leaves the stored history as it was and
  does not fetch or diff the snapshot. When the probe fails (the request cannot be built
  or sent), the visit issues no eligibility call at all, leaves the stored history as it
  was and goes on to the next node.
\<close>

theorem probe_outcomes:
  "(probe_not_200 io \<longrightarrow>
      process_node port io node m
        = Inr ([HttpPost (''http://'' @ Address node @ port @ ''/v1/health/''),
                ToggleEligibility (ID node) False], m))
   \<and> (probe_failed io \<longrightarrow>
        (\<exists>evs. process_node port io node m = Inr (evs, m) \<and> toggles evs = []
               \<and> set evs \<subseteq> {HttpPost (''http://'' @ Address node @ port @ ''/v1/health/'')}))"
  by (auto simp: probe_not_200_def probe_failed_def process_node_def isNpdServerActive_def
        toggleNodeEligibility_def Let_def split: option.splits prod.splits)

text \<open>A detector answering 503, and a node that refuses the connection.\<close>

theorem probe_outcomes_witness:
  "probe_not_200 status_503
   \<and> process_node '':8083'' status_503 node1 [''n1'' \<mapsto> [check ''cpu'' ''false'']]
       = Inr ([HttpPost ''http://10.0.0.1:8083/v1/health/'', ToggleEligibility ''n1'' False],
              [''n1'' \<mapsto> [check ''cpu'' ''false'']])
   \<and> probe_failed unreachable
   \<and> (\<exists>evs. process_node '':8083'' unreachable node1 Map.empty = Inr (evs, Map.empty)
             \<and> toggles evs = [])"
  using probe_outcomes [of status_503 "'':8083''" node1 "[''n1'' \<mapsto> [check ''cpu'' ''false'']]"]
    probe_outcomes [of unreachable "'':8083''" node1 Map.empty]
  by (auto simp: probe_not_200_def probe_failed_def status_503_def unreachable_def node1_def)

text \<open>
  Claim C4 as stated fails for a probe that errors: the code logs that the node is
  unreachable and skips it, and no call asking for ineligible is made.
\<close>

theorem probe_error_no_toggle_counterexample:
  "probe_failed unreachable
   \<and> process_node '':8083'' unreachable node1 [''n1'' \<mapsto> [check ''cpu'' ''false'']]
       = Inr ([HttpPost ''http://10.0.0.1:8083/v1/health/''], [''n1'' \<mapsto> [check ''cpu'' ''false'']])
   \<and> toggles [HttpPost ''http://10.0.0.1:8083/v1/health/''] = []"
  by (simp add: probe_failed_def unreachable_def process_node_def isNpdServerActive_def node1_def)

text \<open>
  Claim C5. Every error of a cycle or of a node is to stay with that node or cycle. The
  code does not keep to it: when the liveness probe answers 200 and \<^verbatim>\<open>client.Do\<close> for
  the snapshot returns an error with a nil response, \<^verbatim>\<open>resp.Body.Close()\<close> on line 144
  dereferences nil, and the panic ends the process: the second node of the listing is not
  visited and the next iteration does not run.
\<close>

theorem fetch_error_ends_process:
  "run '':8083''
     [Iterate (Inr [(node1, answers (None, Some ''context deadline exceeded'') (Inr [])),
                    (\<lparr>ID = ''n2'', Address = ''10.0.0.2''\<rparr>,
                     answers (Some (Response 200), None) (Inr [check ''cpu'' ''false'']))]) [],
      Iterate (Inr []) []]
     (False, Map.empty)
   = Inl NilPointerDereference"
  by (simp add: iteration_def process_node_def isNpdServerActive_def answers_def node1_def)

text \<open>
  Claim C6, amended. When the stored history of the node is not empty and every entry of
  the current sequence has the Result of the previous entries of its Type, the visit issues
  no eligibility call.
\<close>

theorem unchanged_results_no_toggle:
  assumes "snapshot_fetched io current"
    and "stored_history m (ID node) \<noteq> []"
    and "\<forall>c\<in>set current. \<forall>p\<in>set (stored_history m (ID node)).
           Type p = Type c \<longrightarrow> Result p = Result c"
  shows "\<exists>evs. process_node port io node m = Inr (evs, m(ID node \<mapsto> current))
           \<and> toggles evs = []"
proof -
  have "\<not> snd (state_diff (stored_history m (ID node)) current)"
  proof
    assume "snd (state_diff (stored_history m (ID node)) current)"
    then obtain c p where c: "c \<in> set current"
      and p: "find (\<lambda>h. Type h = Type c) (rev (stored_history m (ID node))) = Some p"
      and ne: "Result p \<noteq> Result c"
      by (auto simp: state_diff_closed)
    from find_Some_holds [OF p]
    have "p \<in> set (stored_history m (ID node))" "Type p = Type c"
      by simp_all
    with assms(3) c ne show False by blast
  qed
  with assms(2) show ?thesis
    by (simp add: process_node_fetched [OF assms(1)])
qed

text \<open>An unchanged disk check.\<close>

theorem unchanged_results_no_toggle_witness:
  "snapshot_fetched (answers (Some (Response 200), None) (Inr [check ''DiskUsageHigh'' ''false'']))
      [check ''DiskUsageHigh'' ''false'']
   \<and> stored_history [''n1'' \<mapsto> [check ''DiskUsageHigh'' ''false'']] (ID node1) \<noteq> []
   \<and> (\<exists>evs. process_node '':8083''
               (answers (Some (Response 200), None) (Inr [check ''DiskUsageHigh'' ''false'']))
               node1 [''n1'' \<mapsto> [check ''DiskUsageHigh'' ''false'']]
             = Inr (evs, [''n1'' \<mapsto> [check ''DiskUsageHigh'' ''false''],
                          ID node1 \<mapsto> [check ''DiskUsageHigh'' ''false'']])
           \<and> toggles evs = [])"
proof -
  have f: "snapshot_fetched (answers (Some (Response 200), None) (Inr [check ''DiskUsageHigh'' ''false'']))
      [check ''DiskUsageHigh'' ''false'']"
    by (simp add: snapshot_fetched_def answers_def)
  have h: "stored_history [''n1'' \<mapsto> [check ''DiskUsageHigh'' ''false'']] (ID node1) \<noteq> []"
    by (simp add: stored_history_def node1_def)
  have s: "\<forall>c\<in>set [check ''DiskUsageHigh'' ''false''].
        \<forall>p\<in>set (stored_history [''n1'' \<mapsto> [check ''DiskUsageHigh'' ''false'']] (ID node1)).
           Type p = Type c \<longrightarrow> Result p = Result c"
    by (simp add: stored_history_def node1_def)
  from unchanged_results_no_toggle [OF f h s, of "'':8083''"] f h s show ?thesis
    by blast
qed

text \<open>
  Claim C6 as stated fails when the previous and the current sequence are both empty:
  \<^verbatim>\<open>len(previous) == 0\<close> holds, and a call asking for eligible is made in every such cycle.
\<close>

theorem empty_history_toggles_counterexample:
  "snapshot_fetched (answers (Some (Response 200), None) (Inr [])) []
   \<and> stored_history [''n1'' \<mapsto> []] ''n1'' = []
   \<and> process_node '':8083'' (answers (Some (Response 200), None) (Inr [])) node1 [''n1'' \<mapsto> []]
       = Inr ([HttpPost ''http://10.0.0.1:8083/v1/health/'',
               HttpPost ''http://10.0.0.1:8083/v1/nodehealth/'',
               ToggleEligibility ''n1'' True], [''n1'' \<mapsto> []])"
  by (simp add: snapshot_fetched_def answers_def stored_history_def process_node_def
        isNpdServerActive_def toggleNodeEligibility_def node1_def)

text \<open>
  Claim C7. When the probe answers 200 and the fetch of the snapshot fails, the node is to
  be skipped with no eligibility call and its history kept. For the network error the code
  does not get that far: the visit panics on the nil response (the defect of claim C5).
\<close>

theorem fetch_error_visit_panics:
  "process_node '':8083'' (answers (None, Some ''context deadline exceeded'') (Inr [])) node1 m
   = Inl NilPointerDereference"
  by (simp add: process_node_def isNpdServerActive_def answers_def)

text \<open>
  Claim C8. The diff is a function of the previous and the current sequence alone, so
  running it again on the same pair gives the same pair of results. The verdict depends on
  the current sequence only, and not on the order of its entries; the whole result is the
  same for every reordering of the current sequence.
\<close>

theorem verdict_order_independent:
  assumes "mset current' = mset current"
  shows "fst (state_diff previous' current') = fst (state_diff previous current)
         \<and> state_diff previous current' = state_diff previous current"
proof -
  from assms have "set current' = set current"
    by (rule mset_eq_setD)
  then show ?thesis
    by (simp add: state_diff_closed)
qed

text \<open>Two checks in either order, against different previous sequences.\<close>

theorem verdict_order_independent_witness:
  "mset [check ''cpu'' ''false'', check ''mem'' ''true''] = mset [check ''mem'' ''true'', check ''cpu'' ''false'']
   \<and> fst (state_diff [check ''mem'' ''false''] [check ''cpu'' ''false'', check ''mem'' ''true''])
       = fst (state_diff [] [check ''mem'' ''true'', check ''cpu'' ''false''])
   \<and> state_diff [] [check ''cpu'' ''false'', check ''mem'' ''true'']
       = state_diff [] [check ''mem'' ''true'', check ''cpu'' ''false'']"
proof -
  have p: "mset [check ''cpu'' ''false'', check ''mem'' ''true'']
             = mset [check ''mem'' ''true'', check ''cpu'' ''false'']"
    by (simp add: add.commute)
  from verdict_order_independent [OF p, of "[check ''mem'' ''false'']" "[]"] p
  show ?thesis by simp
qed




text \<open>
  Claim C10. A Type that the stored history has and the current snapshot has not changes
  neither \<open>stateChanged\<close> nor the verdict: the diff is the same as without the previous
  entries of that Type. After the visit the stored history is the current sequence, which
  has no entry of that Type.
\<close>

theorem vanished_type_has_no_effect:
  assumes "t \<notin> Type ` set current"
  shows "state_diff previous current = state_diff (filter (\<lambda>p. Type p \<noteq> t) previous) current
         \<and> (snapshot_fetched io current \<longrightarrow>
              (\<exists>evs m'. process_node port io node m = Inr (evs, m')
                  \<and> stored_history m' (ID node) = current
                  \<and> t \<notin> Type ` set (stored_history m' (ID node))))"
proof
  from assms have "\<forall>c\<in>set current. Type c \<noteq> t"
    by (metis image_eqI)
  then show "state_diff previous current
               = state_diff (filter (\<lambda>p. Type p \<noteq> t) previous) current"
    by (simp add: state_diff_closed rev_filter find_filter_Type)
next
  show "snapshot_fetched io current \<longrightarrow>
              (\<exists>evs m'. process_node port io node m = Inr (evs, m')
                  \<and> stored_history m' (ID node) = current
                  \<and> t \<notin> Type ` set (stored_history m' (ID node)))"
    using assms by (simp add: process_node_fetched stored_history_def)
qed

text \<open>A \<^verbatim>\<open>docker\<close> check that the node no longer reports.\<close>

theorem vanished_type_has_no_effect_witness:
  "''docker'' \<notin> Type ` set [check ''cpu'' ''false'']
   \<and> state_diff [check ''docker'' ''Unhealthy'', check ''cpu'' ''false''] [check ''cpu'' ''false'']
       = state_diff [check ''cpu'' ''false''] [check ''cpu'' ''false'']
   \<and> snapshot_fetched (answers (Some (Response 200), None) (Inr [check ''cpu'' ''false'']))
        [check ''cpu'' ''false'']
   \<and> (\<exists>evs m'. process_node '':8083''
                  (answers (Some (Response 200), None) (Inr [check ''cpu'' ''false'']))
                  node1 [''n1'' \<mapsto> [check ''docker'' ''Unhealthy'', check ''cpu'' ''false'']]
                = Inr (evs, m')
         \<and> stored_history m' (ID node1) = [check ''cpu'' ''false'']
         \<and> ''docker'' \<notin> Type ` set (stored_history m' (ID node1)))"
proof -
  have a: "''docker'' \<notin> Type ` set [check ''cpu'' ''false'']"
    by (simp add: check_def)
  have f: "snapshot_fetched (answers (Some (Response 200), None) (Inr [check ''cpu'' ''false'']))
        [check ''cpu'' ''false'']"
    by (simp add: snapshot_fetched_def answers_def)
  from vanished_type_has_no_effect [OF a,
      of "[check ''docker'' ''Unhealthy'', check ''cpu'' ''false'']"
         "answers (Some (Response 200), None) (Inr [check ''cpu'' ''false''])"
         "'':8083''" node1 "[''n1'' \<mapsto> [check ''docker'' ''Unhealthy'', check ''cpu'' ''false'']]"]
    a f
  show ?thesis by (simp add: check_def)
qed

end
